theory Spec2Isabelle
  imports Main "HOL-Library.Word"
begin

section \<open>Go strings\<close>

text \<open>
  A Go string is a byte sequence: \<^typ>\<open>string\<close>.  The functions of package
  \<^verbatim>\<open>strings\<close> that the bot calls are written out below.  \<^verbatim>\<open>HasPrefix\<close>,
  \<^verbatim>\<open>Contains\<close>, \<^verbatim>\<open>Index\<close>, \<^verbatim>\<open>TrimPrefix\<close>, \<^verbatim>\<open>Split\<close> and \<^verbatim>\<open>ReplaceAll\<close> with a
  non-empty pattern work on bytes in Go as well.  \<^verbatim>\<open>ToLower\<close>, \<^verbatim>\<open>Fields\<close>,
  \<^verbatim>\<open>TrimSpace\<close> and \<^verbatim>\<open>Trim\<close> work on runes in Go; the definitions here are
  their behaviour on ASCII text (letters A to Z are lowered, white space is
  tab, line feed, vertical tab, form feed, carriage return and space).
\<close>

fun HasPrefix :: "string \<Rightarrow> string \<Rightarrow> bool" where
  "HasPrefix s [] = True"
| "HasPrefix [] (p # ps) = False"
| "HasPrefix (c # cs) (p # ps) = (c = p \<and> HasPrefix cs ps)"

fun Contains :: "string \<Rightarrow> string \<Rightarrow> bool" where
  "Contains [] sub = HasPrefix [] sub"
| "Contains (c # cs) sub = (HasPrefix (c # cs) sub \<or> Contains cs sub)"

text \<open>\<^verbatim>\<open>strings.Index\<close>: the position of the first occurrence, or \<open>-1\<close>.\<close>

fun Index :: "string \<Rightarrow> string \<Rightarrow> int" where
  "Index [] sub = (if HasPrefix [] sub then 0 else - 1)"
| "Index (c # cs) sub =
     (if HasPrefix (c # cs) sub then 0
      else (let i = Index cs sub in if i < 0 then - 1 else i + 1))"

definition TrimPrefix :: "string \<Rightarrow> string \<Rightarrow> string" where
  "TrimPrefix s p = (if HasPrefix s p then drop (length p) s else s)"

definition isUpper :: "char \<Rightarrow> bool" where
  "isUpper c = (65 \<le> (of_char c :: nat) \<and> (of_char c :: nat) \<le> 90)"

text \<open>An upper-case letter is lowered by adding 32, that is by setting bit 5.\<close>

definition toLowerChar :: "char \<Rightarrow> char" where
  "toLowerChar c =
     (if isUpper c
      then (case c of Char b0 b1 b2 b3 b4 b5 b6 b7 \<Rightarrow> Char b0 b1 b2 b3 b4 True b6 b7)
      else c)"

definition ToLower :: "string \<Rightarrow> string" where
  "ToLower s = map toLowerChar s"

definition isSpace :: "char \<Rightarrow> bool" where
  "isSpace c = (c \<in> set [CHR 0x09, CHR 0x0A, CHR 0x0B, CHR 0x0C, CHR 0x0D, CHR '' ''])"

definition TrimSpace :: "string \<Rightarrow> string" where
  "TrimSpace s = rev (dropWhile isSpace (rev (dropWhile isSpace s)))"

text \<open>\<^verbatim>\<open>strings.Trim(s, cutset)\<close>: drop leading and trailing bytes of the cutset.\<close>

definition Trim :: "string \<Rightarrow> string \<Rightarrow> string" where
  "Trim s cutset =
     rev (dropWhile (\<lambda>c. c \<in> set cutset) (rev (dropWhile (\<lambda>c. c \<in> set cutset) s)))"

text \<open>
  \<^verbatim>\<open>strings.Fields\<close>: the maximal runs of non-space bytes, in order.  The
  first argument of \<open>fieldsAcc\<close> is the word being read, reversed.
\<close>

fun fieldsAcc :: "string \<Rightarrow> string \<Rightarrow> string list" where
  "fieldsAcc w [] = (if w = [] then [] else [rev w])"
| "fieldsAcc w (c # cs) =
     (if isSpace c then (if w = [] then fieldsAcc [] cs else rev w # fieldsAcc [] cs)
      else fieldsAcc (c # w) cs)"

definition Fields :: "string \<Rightarrow> string list" where
  "Fields s = fieldsAcc [] s"

text \<open>
  \<^verbatim>\<open>strings.Split(s, sep)\<close> for a separator of one byte, which is how the bot
  calls it (\<^verbatim>\<open>":"\<close>): the pieces between the separators, one more than there
  are separators.
\<close>

fun splitAcc :: "string \<Rightarrow> char \<Rightarrow> string \<Rightarrow> string list" where
  "splitAcc w sep [] = [rev w]"
| "splitAcc w sep (c # cs) =
     (if c = sep then rev w # splitAcc [] sep cs else splitAcc (c # w) sep cs)"

definition Split :: "string \<Rightarrow> char \<Rightarrow> string list" where
  "Split s sep = splitAcc [] sep s"

text \<open>
  \<^verbatim>\<open>strings.ReplaceAll(s, old, new)\<close>: the occurrences of \<open>old\<close> are replaced
  from left to right without overlap.  For an empty \<open>old\<close> Go inserts \<open>new\<close>
  before every rune and at the end.
\<close>

function ReplaceAll :: "string \<Rightarrow> string \<Rightarrow> string \<Rightarrow> string" where
  "ReplaceAll [] old new = (if old = [] then new else [])"
| "ReplaceAll (c # cs) old new =
     (if old = [] then new @ c # ReplaceAll cs old new
      else if HasPrefix (c # cs) old then new @ ReplaceAll (drop (length old) (c # cs)) old new
      else c # ReplaceAll cs old new)"
  by pat_completeness auto
termination
  by (relation "measure (\<lambda>(s, old, new). length s)") auto

section \<open>The Matrix client\<close>

text \<open>
  Modelled from the spec: package \<^verbatim>\<open>domain\<close> (the declarations of
  \<^verbatim>\<open>RoomType\<close>, \<^verbatim>\<open>Role\<close>, \<^verbatim>\<open>Message\<close> and \<^verbatim>\<open>ConversationMessage\<close>) is not among
  the sources.  The room type is the enumeration of direct and group rooms.
\<close>

datatype RoomType = DirectRoom | GroupRoom

text \<open>
  The fields of \<^verbatim>\<open>Client\<close> that the functions below read or write.  Time
  stamps are Go's \<^verbatim>\<open>int64\<close>, read with \<^term>\<open>sint\<close>.
\<close>

record Client =
  userID :: string
  allowedDomain :: string
  syncToken :: string
  lastProcessedTime :: "64 word"
  startupTime :: "64 word"

definition IsFromAllowedDomain :: "Client \<Rightarrow> string \<Rightarrow> bool" where
  "IsFromAllowedDomain c uid =
     (let parts = Split uid CHR '':'' in
      if length parts \<noteq> 2 then False else parts ! 1 = allowedDomain c)"

text \<open>
  The local part of the bot's name: the user ID without a leading \<^verbatim>\<open>@\<close>, cut
  at the first colon if there is one.
\<close>

definition localpartOf :: "string \<Rightarrow> string" where
  "localpartOf fullUsername =
     (let idx = Index fullUsername '':'' in
      if idx \<ge> 0 then take (nat idx) fullUsername else fullUsername)"

definition fullMentionOf :: "Client \<Rightarrow> string" where
  "fullMentionOf c = ''@'' @ TrimPrefix (userID c) ''@''"

text \<open>The first check of \<^verbatim>\<open>IsAddressedToBot\<close>, on the lowered content.\<close>

definition fullMentionCheck :: "Client \<Rightarrow> string \<Rightarrow> bool" where
  "fullMentionCheck c content = Contains (ToLower content) (fullMentionOf c)"

definition isMentionPunct :: "char \<Rightarrow> bool" where
  "isMentionPunct ch = (ch \<in> set '',.!?:;'')"

text \<open>The body of the loop over the words of the content.\<close>

definition wordMatches :: "string \<Rightarrow> string \<Rightarrow> bool" where
  "wordMatches localpart word0 =
     (let word = ToLower (Trim word0 ('',.!?:;'' @ [CHR 0x22, CHR 0x27] @ ''()[]{}'')) in
      word = localpart \<or>
      (HasPrefix word localpart \<and> length word > length localpart \<and>
       isMentionPunct (word ! length localpart)))"

definition IsAddressedToBot :: "Client \<Rightarrow> string \<Rightarrow> RoomType \<Rightarrow> bool" where
  "IsAddressedToBot c content0 roomType =
     (if roomType = DirectRoom then True
      else
        let fullUsername = TrimPrefix (userID c) ''@'';
            content = ToLower content0;
            localpart = ToLower (localpartOf fullUsername)
        in if fullMentionCheck c content0 then True
           else if Contains content localpart \<and> list_ex (wordMatches localpart) (Fields content)
           then True
           else Contains content (localpart @ '':''))"

section \<open>The message handler\<close>

text \<open>
  Modelled from the spec: the missing package \<^verbatim>\<open>domain\<close> declares the roles and
  the two message structures; the fields are the ones the sources read and
  write.  \<^verbatim>\<open>Message\<close> is what the Matrix service returns as room history,
  \<^verbatim>\<open>ConversationMessage\<close> is one entry of the context window.
\<close>

datatype Role = RoleUser | RoleAssistant

record Message =
  m_ID :: string
  m_RoomID :: string
  m_SenderID :: string
  m_Content :: string
  m_Timestamp :: "64 word"
  m_IsFromBot :: bool

record ConversationMessage =
  Role :: Role
  Content :: string
  Timestamp :: "64 word"
  SenderID :: string

text \<open>A Go \<^verbatim>\<open>error\<close> is represented by its message.\<close>

type_synonym error = string

text \<open>
  The removal of the bot's name that \<^verbatim>\<open>HandleMessage\<close> and
  \<^verbatim>\<open>getConversationContext\<close> both spell out: the full mention first, then the
  local part between spaces, after a space, at the start, and alone.
\<close>

definition stripMention :: "string \<Rightarrow> string \<Rightarrow> string \<Rightarrow> string" where
  "stripMention full localpart text0 =
     (let t1 = ReplaceAll text0 full [];
          t2 = ReplaceAll t1 ('' '' @ localpart @ '' '') '' '';
          t3 = ReplaceAll t2 ('' '' @ localpart) [];
          t4 = (if HasPrefix t3 (localpart @ '' '') then drop (length localpart + 1) t3 else t3);
          t5 = (if t4 = localpart then [] else t4)
      in TrimSpace t5)"

text \<open>
  The body of the loop of \<^verbatim>\<open>getConversationContext\<close> over the history:
  the entry a message contributes, if any.
\<close>

definition historyEntry :: "string \<Rightarrow> Message \<Rightarrow> ConversationMessage option" where
  "historyEntry botID msg =
     (if m_Content msg = [] then None
      else
        let role = (if m_IsFromBot msg then RoleAssistant else RoleUser);
            localpart = localpartOf (TrimPrefix botID ''@'');
            msgContent =
              (if \<not> m_IsFromBot msg \<and>
                  (Contains (m_Content msg) botID \<or>
                   Contains (ToLower (m_Content msg)) (ToLower localpart))
               then stripMention botID localpart (m_Content msg)
               else m_Content msg)
        in if msgContent \<noteq> []
           then Some \<lparr>Role = role, Content = msgContent,
                      Timestamp = m_Timestamp msg, SenderID = m_SenderID msg\<rparr>
           else None)"

fun processMessages ::
  "string \<Rightarrow> ConversationMessage list \<Rightarrow> Message list \<Rightarrow> ConversationMessage list" where
  "processMessages botID conv [] = conv"
| "processMessages botID conv (msg # msgs) =
     processMessages botID
       (case historyEntry botID msg of None \<Rightarrow> conv | Some e \<Rightarrow> conv @ [e]) msgs"

text \<open>
  The history as the handler reconciles it: a failed fetch counts as no
  history, empty messages are skipped, the rest is reversed and processed.
\<close>

definition reconciledHistory :: "string \<Rightarrow> error + Message list \<Rightarrow> ConversationMessage list" where
  "reconciledHistory botID fetched =
     (let recentMessages =
            (case fetched of Inl err \<Rightarrow> []
             | Inr matrixMessages \<Rightarrow> filter (\<lambda>msg. m_Content msg \<noteq> []) matrixMessages);
          messagesToProcess = rev recentMessages
      in processMessages botID [] messagesToProcess)"

text \<open>
  The test of the loop that looks for the current message in the history.
  The difference of the two \<^verbatim>\<open>int64\<close> time stamps wraps around.
\<close>

definition sameAsCurrent :: "string \<Rightarrow> string \<Rightarrow> 64 word \<Rightarrow> ConversationMessage \<Rightarrow> bool" where
  "sameAsCurrent currentMessage senderID currentTimestamp msg =
     (Content msg = currentMessage \<and> SenderID msg = senderID \<and>
      sint (currentTimestamp - Timestamp msg) < 5000)"

text \<open>
  \<^verbatim>\<open>getConversationContext\<close>.  What the Matrix service and the clock answer
  is given as arguments: the result of \<^verbatim>\<open>GetRoomType\<close> (used for the log
  only), the result of \<^verbatim>\<open>GetRoomContext\<close>, and the time in milliseconds.
\<close>

definition getConversationContext ::
  "string \<Rightarrow> error + RoomType \<Rightarrow> error + Message list \<Rightarrow> 64 word \<Rightarrow> string \<Rightarrow> string
     \<Rightarrow> error + ConversationMessage list" where
  "getConversationContext botID roomTypeResult fetched currentTimestamp senderID currentMessage =
     (let roomType = (case roomTypeResult of Inl err \<Rightarrow> DirectRoom | Inr t \<Rightarrow> t);
          conversationMessages = reconciledHistory botID fetched;
          currentMessageExists =
            list_ex (sameAsCurrent currentMessage senderID currentTimestamp) conversationMessages
      in if \<not> currentMessageExists
         then Inr (conversationMessages @
                   [\<lparr>Role = RoleUser, Content = currentMessage,
                     Timestamp = currentTimestamp, SenderID = senderID\<rparr>])
         else Inr conversationMessages)"

text \<open>
  What \<^verbatim>\<open>HandleMessage\<close> does to the outside, in order, and what the outside
  answers during one call.
\<close>

datatype Effect =
  SendTyping string bool int
| GenerateResponse "ConversationMessage list"
| SendMessage string string

record Outcomes =
  roomTypeResult :: "error + RoomType"
  contextRoomTypeResult :: "error + RoomType"
  roomContextResult :: "error + Message list"
  contextTime :: "64 word"
  fallbackTime :: "64 word"
  generateResult :: "error + string"
  replyResult :: "error option"

definition HandleMessage ::
  "Client \<Rightarrow> Outcomes \<Rightarrow> string \<Rightarrow> string \<Rightarrow> string \<Rightarrow> error option \<times> Effect list" where
  "HandleMessage c out senderID roomID content =
     (if content = [] then (None, [])
      else if \<not> IsFromAllowedDomain c senderID then (None, [])
      else case roomTypeResult out of
        Inl err \<Rightarrow> (Some (''error determining room type: '' @ err), [])
      | Inr roomType \<Rightarrow>
          if \<not> IsAddressedToBot c content roomType then (None, [])
          else
            let fullUsername = TrimPrefix (userID c) ''@'';
                messageText =
                  (if roomType = GroupRoom
                   then stripMention (''@'' @ fullUsername) (localpartOf fullUsername) content
                   else content)
            in if messageText = [] then (None, [])
               else
                 let contextMessages =
                       (case getConversationContext (userID c) (contextRoomTypeResult out)
                               (roomContextResult out) (contextTime out) senderID messageText of
                          Inl err \<Rightarrow> [\<lparr>Role = RoleUser, Content = messageText,
                                       Timestamp = fallbackTime out, SenderID = senderID\<rparr>]
                        | Inr msgs \<Rightarrow> msgs);
                     started = [SendTyping roomID True 30000, GenerateResponse contextMessages]
                 in case generateResult out of
                      Inl err \<Rightarrow>
                        (Some (''error generating response: '' @ err),
                         started @ [SendMessage roomID
                           (''Sorry, I'' @ [CHR 0x27] @ ''m having trouble thinking right now.'')])
                    | Inr aiResponse \<Rightarrow>
                        ((case replyResult out of
                            Some err \<Rightarrow> Some (''error sending response: '' @ err)
                          | None \<Rightarrow> None),
                         started @ [SendTyping roomID False 0, SendMessage roomID aiResponse]))"

section \<open>The session loop\<close>

text \<open>
  What the event callback of \<^verbatim>\<open>ListenForMessages\<close> reads of a Matrix event.
  \<open>evt_StateKey\<close> is \<^verbatim>\<open>GetStateKey()\<close> (empty when the event has none), and
  \<open>evt_Membership\<close> is the membership of the member content, if the content
  is one.
\<close>

datatype EventType = StateMember | EventMessage | OtherEvent string

datatype Membership = MembershipInvite | MembershipJoin | MembershipOther string

record Event =
  evt_Type :: EventType
  evt_Sender :: string
  evt_RoomID :: string
  evt_Timestamp :: "64 word"
  evt_StateKey :: string
  evt_Membership :: "Membership option"

text \<open>
  What the callback starts: an attempt to join a room (its failure is only
  logged), and the message handler, which runs in a goroutine of its own.
\<close>

datatype Dispatch = JoinRoom string | CallHandler Event

definition onEvent :: "Client \<Rightarrow> Event \<Rightarrow> Client \<times> Dispatch list" where
  "onEvent c evt =
     (if 0 < sint (evt_Timestamp evt) \<and> sint (evt_Timestamp evt) < sint (startupTime c)
      then (c, [])
      else if 0 < sint (evt_Timestamp evt) \<and>
              sint (evt_Timestamp evt) \<le> sint (lastProcessedTime c)
      then (c, [])
      else
        let c' = (if 0 < sint (evt_Timestamp evt)
                  then c\<lparr>lastProcessedTime := evt_Timestamp evt\<rparr> else c);
            joins = (if evt_Type evt = StateMember \<and>
                        evt_Membership evt = Some MembershipInvite \<and>
                        evt_StateKey evt = userID c
                     then [JoinRoom (evt_RoomID evt)] else [])
        in if evt_Type evt \<noteq> EventMessage then (c', joins)
           else if evt_Sender evt = userID c then (c', joins)
           else (c', joins @ [CallHandler evt]))"

text \<open>
  The syncer calls the callback for one event after the other.  \<open>deliver\<close>
  gives the client after the last event and everything that was started;
  \<open>watermarks\<close> lists \<open>lastProcessedTime\<close> before the first event and after
  each one.
\<close>

fun deliver :: "Client \<Rightarrow> Event list \<Rightarrow> Client \<times> Dispatch list" where
  "deliver c [] = (c, [])"
| "deliver c (evt # evts) =
     (let (c', started) = onEvent c evt;
          (c'', later) = deliver c' evts
      in (c'', started @ later))"

fun watermarks :: "Client \<Rightarrow> Event list \<Rightarrow> 64 word list" where
  "watermarks c [] = [lastProcessedTime c]"
| "watermarks c (evt # evts) = lastProcessedTime c # watermarks (fst (onEvent c evt)) evts"

text \<open>
  The reconnecting loop.  One round is one pass through the body of the
  \<^verbatim>\<open>for\<close>: whether the context is already cancelled, what \<^verbatim>\<open>Sync\<close> returns when
  it ends (\<open>None\<close> is Go's \<^verbatim>\<open>nil\<close>), and what the store gives as next batch.
  The loop has no exit of its own, so it is run on the rounds that are
  known; when they are used up it is still \<open>Looping\<close>.  The effects are
  the calls of \<^verbatim>\<open>Sync\<close>, the writes of the token file (a failed write is only
  logged) and the sleeps, in seconds.
\<close>

record Round =
  cancelled :: bool
  syncResult :: "error option"
  nextBatch :: string

datatype SyncEffect = StartSync | WriteTokenFile string | Sleep nat

datatype LoopEnd = Looping | Cancelled | AuthFailed

definition isAuthError :: "error option \<Rightarrow> bool" where
  "isAuthError err =
     (case err of None \<Rightarrow> False
      | Some msg \<Rightarrow> Contains msg ''M_UNKNOWN_TOKEN'' \<or> Contains msg ''Invalid access token''
                     \<or> Contains msg ''401'')"

fun syncLoop :: "Client \<Rightarrow> Round list \<Rightarrow> Client \<times> SyncEffect list \<times> LoopEnd" where
  "syncLoop c [] = (c, [], Looping)"
| "syncLoop c (r # rs) =
     (if cancelled r then (c, [], Cancelled)
      else if isAuthError (syncResult r)
      then (c\<lparr>syncToken := []\<rparr>, [StartSync, WriteTokenFile []], AuthFailed)
      else
        let c' = (if nextBatch r \<noteq> [] then c\<lparr>syncToken := nextBatch r\<rparr> else c);
            saved = (if nextBatch r \<noteq> [] then [WriteTokenFile (nextBatch r)] else []);
            waited = (if syncResult r \<noteq> None then [Sleep 5] else []);
            (c'', later, ending) = syncLoop c' rs
        in (c'', StartSync # saved @ waited @ later, ending))"

section \<open>Orderings and sample values\<close>

text \<open>
  A context window is chronological when no entry has a time stamp below
  that of an entry before it.  A fetch is newest first when every event is
  older than the ones before it, and not after \<open>t\<close> when no event is stamped
  later than \<open>t\<close>.
\<close>

definition chronological :: "ConversationMessage list \<Rightarrow> bool" where
  "chronological window =
     sorted_wrt (\<lambda>a b. sint (Timestamp a) \<le> sint (Timestamp b)) window"

definition strictlyChronological :: "ConversationMessage list \<Rightarrow> bool" where
  "strictlyChronological window =
     sorted_wrt (\<lambda>a b. sint (Timestamp a) < sint (Timestamp b)) window"

definition newestFirst :: "Message list \<Rightarrow> bool" where
  "newestFirst msgs = sorted_wrt (\<lambda>a b. sint (m_Timestamp b) < sint (m_Timestamp a)) msgs"

definition notAfter :: "64 word \<Rightarrow> Message list \<Rightarrow> bool" where
  "notAfter t msgs = list_all (\<lambda>msg. sint (m_Timestamp msg) \<le> sint t) msgs"

definition nonDecreasing :: "64 word list \<Rightarrow> bool" where
  "nonDecreasing ws = sorted_wrt (\<lambda>a b. sint a \<le> sint b) ws"

text \<open>A bot, a text message of the history, a window entry and a message event.\<close>

definition henry :: Client where
  "henry = \<lparr>userID = ''@henry:henhouse.im'', allowedDomain = ''henhouse.im'',
            syncToken = ''s0'', lastProcessedTime = 1000, startupTime = 1000\<rparr>"

definition textFrom :: "string \<Rightarrow> string \<Rightarrow> 64 word \<Rightarrow> Message" where
  "textFrom sender body ts =
     \<lparr>m_ID = [], m_RoomID = ''!room:henhouse.im'', m_SenderID = sender, m_Content = body,
      m_Timestamp = ts, m_IsFromBot = False\<rparr>"

definition userEntry :: "string \<Rightarrow> string \<Rightarrow> 64 word \<Rightarrow> ConversationMessage" where
  "userEntry sender body ts =
     \<lparr>Role = RoleUser, Content = body, Timestamp = ts, SenderID = sender\<rparr>"

definition messageEvent :: "string \<Rightarrow> 64 word \<Rightarrow> Event" where
  "messageEvent sender ts =
     \<lparr>evt_Type = EventMessage, evt_Sender = sender, evt_RoomID = ''!room:henhouse.im'',
      evt_Timestamp = ts, evt_StateKey = [], evt_Membership = None\<rparr>"

definition quietOutcomes :: Outcomes where
  "quietOutcomes =
     \<lparr>roomTypeResult = Inr DirectRoom, contextRoomTypeResult = Inr DirectRoom,
      roomContextResult = Inr [], contextTime = 2000, fallbackTime = 2000,
      generateResult = Inr ''hi there'', replyResult = None\<rparr>"

section \<open>Facts about the string functions\<close>

lemmas string_defs = TrimPrefix_def ToLower_def toLowerChar_def isUpper_def localpartOf_def
  Fields_def isSpace_def Trim_def TrimSpace_def Split_def

lemmas addressed_defs = IsAddressedToBot_def fullMentionCheck_def fullMentionOf_def
  wordMatches_def isMentionPunct_def

lemmas context_defs = getConversationContext_def reconciledHistory_def historyEntry_def
  stripMention_def sameAsCurrent_def textFrom_def userEntry_def



lemma length_splitAcc: "length (splitAcc w sep s) = Suc (count_list s sep)"
  by (induction s arbitrary: w) auto

lemma length_Split: "length (Split s sep) = Suc (count_list s sep)"
  by (simp add: Split_def length_splitAcc)


text \<open>The signatures of an authentication failure are matched as they are spelt.\<close>

lemma auth_signatures:
  "isAuthError (Some ''M_UNKNOWN_TOKEN (HTTP 401): Invalid access token passed.'') \<and>
   \<not> isAuthError (Some ''invalid token'') \<and> \<not> isAuthError None"
  by (simp add: isAuthError_def)

section \<open>Facts about the history\<close>

lemma processMessages_eq:
  "processMessages botID conv msgs = conv @ List.map_filter (historyEntry botID) msgs"
  by (induction msgs arbitrary: conv) (auto simp: List.map_filter_simps split: option.splits)

lemma historyEntry_Timestamp:
  "historyEntry botID msg = Some e \<Longrightarrow> Timestamp e = m_Timestamp msg"
  by (auto simp: historyEntry_def Let_def split: if_splits)

lemma sorted_wrt_map_filter:
  assumes "sorted_wrt P xs"
    and "\<And>x y a b. P x y \<Longrightarrow> f x = Some a \<Longrightarrow> f y = Some b \<Longrightarrow> Q a b"
  shows "sorted_wrt Q (List.map_filter f xs)"
  using assms(1)
proof (induction xs)
  case Nil
  show ?case by (simp add: List.map_filter_simps)
next
  case (Cons x xs)
  then have tail: "sorted_wrt Q (List.map_filter f xs)" by simp
  show ?case
  proof (cases "f x")
    case None
    with tail show ?thesis by (simp add: List.map_filter_simps)
  next
    case (Some a)
    have "Q a b" if "b \<in> set (List.map_filter f xs)" for b
    proof -
      from that obtain y where "y \<in> set xs" "f y = Some b"
        by (auto simp: List.map_filter_def)
      with Cons.prems Some assms(2) show ?thesis by auto
    qed
    with tail Some show ?thesis by (simp add: List.map_filter_simps)
  qed
qed

lemma reconciledHistory_Inr:
  "reconciledHistory botID (Inr msgs) =
     List.map_filter (historyEntry botID) (rev (filter (\<lambda>msg. m_Content msg \<noteq> []) msgs))"
  by (simp add: reconciledHistory_def processMessages_eq)

lemma reconciledHistory_strict:
  assumes "newestFirst msgs"
  shows "strictlyChronological (reconciledHistory botID (Inr msgs))"
proof -
  from assms have "sorted_wrt (\<lambda>a b. sint (m_Timestamp b) < sint (m_Timestamp a))
      (filter (\<lambda>msg. m_Content msg \<noteq> []) msgs)"
    unfolding newestFirst_def by (rule sorted_wrt_filter)
  then have "sorted_wrt (\<lambda>a b. sint (m_Timestamp a) < sint (m_Timestamp b))
      (rev (filter (\<lambda>msg. m_Content msg \<noteq> []) msgs))"
    by (simp add: sorted_wrt_rev)
  then show ?thesis
    unfolding reconciledHistory_Inr strictlyChronological_def
    by (rule sorted_wrt_map_filter) (simp add: historyEntry_Timestamp)
qed

lemma reconciledHistory_source:
  assumes "e \<in> set (reconciledHistory botID (Inr msgs))"
  shows "\<exists>m\<in>set msgs. Timestamp e = m_Timestamp m"
proof -
  from assms obtain m where "m \<in> set msgs" "historyEntry botID m = Some e"
    by (auto simp: reconciledHistory_Inr List.map_filter_def)
  then show ?thesis using historyEntry_Timestamp by blast
qed


section \<open>Facts about the event callback\<close>

lemma onEvent_startupTime: "startupTime (fst (onEvent c evt)) = startupTime c"
  by (simp add: onEvent_def Let_def)

lemma onEvent_watermark:
  "sint (lastProcessedTime c) \<le> sint (lastProcessedTime (fst (onEvent c evt)))"
  by (simp add: onEvent_def Let_def)

lemma onEvent_dispatch:
  "CallHandler e \<in> set (snd (onEvent c evt)) \<Longrightarrow>
     e = evt \<and> \<not> (0 < sint (evt_Timestamp e) \<and> sint (evt_Timestamp e) < sint (startupTime c))"
  by (auto simp: onEvent_def Let_def split: if_splits)

lemma watermarks_lower_bound:
  "w \<in> set (watermarks c evts) \<Longrightarrow> sint (lastProcessedTime c) \<le> sint w"
proof (induction evts arbitrary: c)
  case Nil
  then show ?case by simp
next
  case (Cons evt evts)
  from Cons.prems consider "w = lastProcessedTime c"
    | "w \<in> set (watermarks (fst (onEvent c evt)) evts)"
    by auto
  then show ?case
  proof cases
    case 1
    then show ?thesis by simp
  next
    case 2
    from Cons.IH [OF 2] onEvent_watermark [of c evt] show ?thesis by linarith
  qed
qed

text \<open>The last watermark is the one of the client that \<open>deliver\<close> returns.\<close>

lemma deliver_watermark:
  "lastProcessedTime (fst (deliver c evts)) = last (watermarks c evts)"
proof (induction evts arbitrary: c)
  case Nil
  show ?case by simp
next
  case (Cons evt evts)
  have nonempty: "watermarks c' evts \<noteq> []" for c'
    by (cases evts) simp_all
  from Cons.IH [of "fst (onEvent c evt)"] nonempty show ?case
    by (simp add: split_beta)
qed

section \<open>The context window\<close>

text \<open>
  C1 (as amended).  When the fetch is newest first with distinct time stamps
  and the clock read for the current message is not earlier than any fetched
  event, \<^verbatim>\<open>getConversationContext\<close> returns a window in which no entry has a
  lower time stamp than an entry before it; the reconciled history in it is
  strictly increasing.
\<close>

theorem context_window_chronological:
  assumes "newestFirst msgs" and "notAfter now msgs"
  shows "\<exists>window.
      getConversationContext botID rt (Inr msgs) now senderID currentMessage = Inr window \<and>
      chronological window \<and>
      strictlyChronological (reconciledHistory botID (Inr msgs))"
proof -
  let ?conv = "reconciledHistory botID (Inr msgs)"
  have strict: "strictlyChronological ?conv"
    using assms(1) by (rule reconciledHistory_strict)
  then have weak: "chronological ?conv"
    unfolding strictlyChronological_def chronological_def
    by (rule sorted_wrt_mono_rel [rotated]) simp
  have bound: "sint (Timestamp e) \<le> sint now" if "e \<in> set ?conv" for e
    using reconciledHistory_source [OF that] assms(2) by (auto simp: notAfter_def list_all_iff)
  show ?thesis
  proof (cases "list_ex (sameAsCurrent currentMessage senderID now) ?conv")
    case True
    with strict weak show ?thesis by (simp add: getConversationContext_def)
  next
    case False
    with strict weak bound show ?thesis
      by (simp add: getConversationContext_def chronological_def sorted_wrt_append)
  qed
qed

text \<open>
  The amended statement at a fetch of two events, the older one mentioning
  the bot, with the clock after both.
\<close>

theorem context_window_chronological_witness:
  "newestFirst [textFrom ''@bob:henhouse.im'' ''see you'' 200,
                textFrom ''@alice:henhouse.im'' ''hello henry'' 100] \<and>
   notAfter 250 [textFrom ''@bob:henhouse.im'' ''see you'' 200,
                 textFrom ''@alice:henhouse.im'' ''hello henry'' 100] \<and>
   getConversationContext ''@henry:henhouse.im'' (Inr GroupRoom)
     (Inr [textFrom ''@bob:henhouse.im'' ''see you'' 200,
           textFrom ''@alice:henhouse.im'' ''hello henry'' 100])
     250 ''@alice:henhouse.im'' ''what time is it'' =
     Inr [userEntry ''@alice:henhouse.im'' ''hello'' 100,
          userEntry ''@bob:henhouse.im'' ''see you'' 200,
          userEntry ''@alice:henhouse.im'' ''what time is it'' 250] \<and>
   chronological [userEntry ''@alice:henhouse.im'' ''hello'' 100,
          userEntry ''@bob:henhouse.im'' ''see you'' 200,
          userEntry ''@alice:henhouse.im'' ''what time is it'' 250]"
proof -
  have h1: "newestFirst [textFrom ''@bob:henhouse.im'' ''see you'' 200,
                         textFrom ''@alice:henhouse.im'' ''hello henry'' 100]"
    by (simp add: newestFirst_def textFrom_def)
  have h2: "notAfter 250 [textFrom ''@bob:henhouse.im'' ''see you'' 200,
                          textFrom ''@alice:henhouse.im'' ''hello henry'' 100]"
    by (simp add: notAfter_def textFrom_def)
  have run: "getConversationContext ''@henry:henhouse.im'' (Inr GroupRoom)
     (Inr [textFrom ''@bob:henhouse.im'' ''see you'' 200,
           textFrom ''@alice:henhouse.im'' ''hello henry'' 100])
     250 ''@alice:henhouse.im'' ''what time is it'' =
     Inr [userEntry ''@alice:henhouse.im'' ''hello'' 100,
          userEntry ''@bob:henhouse.im'' ''see you'' 200,
          userEntry ''@alice:henhouse.im'' ''what time is it'' 250]"
    by (simp add: context_defs string_defs)
  from context_window_chronological [OF h1 h2, of "''@henry:henhouse.im''" "Inr GroupRoom"
      "''@alice:henhouse.im''" "''what time is it''"]
  show ?thesis using h1 h2 run by simp
qed

text \<open>
  C1 as stated fails when the clock read for the current message is behind
  the newest fetched event: the fetch is newest first with distinct time
  stamps, and the appended entry is stamped before the entry it follows.
\<close>

theorem context_window_chronological_counterexample:
  "newestFirst [textFrom ''@bob:henhouse.im'' ''see you'' 200,
                textFrom ''@alice:henhouse.im'' ''hello all'' 100] \<and>
   getConversationContext ''@henry:henhouse.im'' (Inr GroupRoom)
     (Inr [textFrom ''@bob:henhouse.im'' ''see you'' 200,
           textFrom ''@alice:henhouse.im'' ''hello all'' 100])
     150 ''@alice:henhouse.im'' ''what time is it'' =
     Inr [userEntry ''@alice:henhouse.im'' ''hello all'' 100,
          userEntry ''@bob:henhouse.im'' ''see you'' 200,
          userEntry ''@alice:henhouse.im'' ''what time is it'' 150] \<and>
   \<not> chronological [userEntry ''@alice:henhouse.im'' ''hello all'' 100,
          userEntry ''@bob:henhouse.im'' ''see you'' 200,
          userEntry ''@alice:henhouse.im'' ''what time is it'' 150]"
  by (simp add: newestFirst_def chronological_def context_defs string_defs)

section \<open>The event filter\<close>

text \<open>
  C2 (as amended).  Whatever events are delivered, an event handed to the
  message handler does not have a positive time stamp below the startup
  time: its time stamp is either not positive or not below the startup time.
\<close>

theorem stale_event_not_dispatched:
  assumes "CallHandler e \<in> set (snd (deliver c evts))"
  shows "sint (evt_Timestamp e) \<le> 0 \<or> sint (startupTime c) \<le> sint (evt_Timestamp e)"
  using assms
proof (induction evts arbitrary: c)
  case Nil
  then show ?case by simp
next
  case (Cons evt evts)
  obtain c' started where step: "onEvent c evt = (c', started)" by (cases "onEvent c evt")
  obtain c'' later where rest: "deliver c' evts = (c'', later)" by (cases "deliver c' evts")
  from Cons.prems step rest have "CallHandler e \<in> set started \<or> CallHandler e \<in> set later"
    by auto
  then show ?case
  proof
    assume "CallHandler e \<in> set started"
    with step onEvent_dispatch [of e c evt] show ?thesis by auto
  next
    assume "CallHandler e \<in> set later"
    with rest Cons.IH [of c']
    have "sint (evt_Timestamp e) \<le> 0 \<or> sint (startupTime c') \<le> sint (evt_Timestamp e)"
      by simp
    moreover from step onEvent_startupTime [of c evt] have "startupTime c' = startupTime c"
      by simp
    ultimately show ?thesis by simp
  qed
qed

text \<open>Two events delivered to a bot started at 1000: only the second is new.\<close>

theorem stale_event_not_dispatched_witness:
  "CallHandler (messageEvent ''@alice:henhouse.im'' 1500) \<in>
     set (snd (deliver henry [messageEvent ''@bob:henhouse.im'' 900,
                              messageEvent ''@alice:henhouse.im'' 1500])) \<and>
   CallHandler (messageEvent ''@bob:henhouse.im'' 900) \<notin>
     set (snd (deliver henry [messageEvent ''@bob:henhouse.im'' 900,
                              messageEvent ''@alice:henhouse.im'' 1500])) \<and>
   sint (startupTime henry) \<le> sint (evt_Timestamp (messageEvent ''@alice:henhouse.im'' 1500))"
proof -
  have h: "CallHandler (messageEvent ''@alice:henhouse.im'' 1500) \<in>
     set (snd (deliver henry [messageEvent ''@bob:henhouse.im'' 900,
                              messageEvent ''@alice:henhouse.im'' 1500]))"
    by (simp add: henry_def messageEvent_def onEvent_def)
  have "CallHandler (messageEvent ''@bob:henhouse.im'' 900) \<notin>
     set (snd (deliver henry [messageEvent ''@bob:henhouse.im'' 900,
                              messageEvent ''@alice:henhouse.im'' 1500]))"
    by (simp add: henry_def messageEvent_def onEvent_def)
  with h stale_event_not_dispatched [OF h] show ?thesis
    by (simp add: henry_def messageEvent_def)
qed

text \<open>
  C2 as stated fails for an event without a time stamp: its time stamp 0 is
  below the startup time 1000, and the event is handed to the handler.
\<close>

theorem stale_event_not_dispatched_counterexample:
  "sint (evt_Timestamp (messageEvent ''@alice:henhouse.im'' 0)) < sint (startupTime henry) \<and>
   CallHandler (messageEvent ''@alice:henhouse.im'' 0) \<in>
     set (snd (deliver henry [messageEvent ''@alice:henhouse.im'' 0]))"
  by (simp add: henry_def messageEvent_def onEvent_def)

text \<open>
  C3.  Whatever events are delivered, in whatever order, the values of
  \<open>lastProcessedTime\<close> before the first event and after each event never
  decrease.
\<close>

theorem watermark_monotonic: "nonDecreasing (watermarks c evts)"
  unfolding nonDecreasing_def
proof (induction evts arbitrary: c)
  case Nil
  show ?case by simp
next
  case (Cons evt evts)
  have "sint (lastProcessedTime c) \<le> sint w"
    if "w \<in> set (watermarks (fst (onEvent c evt)) evts)" for w
    using watermarks_lower_bound [OF that] onEvent_watermark [of c evt] by linarith
  with Cons.IH show ?case by simp
qed

section \<open>The mention detector\<close>




text \<open>
  C5.  In a direct room every text, the empty one included, is addressed to
  the bot, whatever the bot's identity.
\<close>

theorem direct_room_always_addressed: "IsAddressedToBot c T DirectRoom = True"
  by (simp add: IsAddressedToBot_def)

text \<open>
  C6.  For a bot with local name henry, given as the bare name or as a full
  identity with any domain, in a group room: \<^verbatim>\<open>henrysmith did this\<close> is not
  addressed to the bot, \<^verbatim>\<open>henry, hi\<close> and \<^verbatim>\<open>ask henry: what time is it\<close> are.
\<close>

theorem henry_word_boundary:
  "IsAddressedToBot (c\<lparr>userID := ''henry''\<rparr>) ''henrysmith did this'' GroupRoom = False \<and>
   IsAddressedToBot (c\<lparr>userID := ''henry''\<rparr>) ''henry, hi'' GroupRoom = True \<and>
   IsAddressedToBot (c\<lparr>userID := ''henry''\<rparr>) ''ask henry: what time is it'' GroupRoom = True \<and>
   IsAddressedToBot (c\<lparr>userID := ''@henry:'' @ d\<rparr>) ''henrysmith did this'' GroupRoom = False \<and>
   IsAddressedToBot (c\<lparr>userID := ''@henry:'' @ d\<rparr>) ''henry, hi'' GroupRoom = True \<and>
   IsAddressedToBot (c\<lparr>userID := ''@henry:'' @ d\<rparr>) ''ask henry: what time is it'' GroupRoom
     = True"
  by (simp add: addressed_defs string_defs)

section \<open>The current message in the window\<close>




text \<open>
  C8.  When the fetch of the history fails, \<^verbatim>\<open>getConversationContext\<close>
  returns, without an error, the window that holds the current message as
  its only entry, with the user role; and on every input it returns a
  window and no error.
\<close>

theorem fetch_failure_degrades:
  "getConversationContext botID rt (Inl err) now senderID currentMessage =
     Inr [\<lparr>Role = RoleUser, Content = currentMessage, Timestamp = now, SenderID = senderID\<rparr>] \<and>
   (\<exists>window. getConversationContext botID rt fetched now senderID currentMessage = Inr window)"
  by (simp add: getConversationContext_def reconciledHistory_def Let_def)

section \<open>The end of a sync\<close>

text \<open>
  C9 (as amended).  In a round that is not cancelled: when \<^verbatim>\<open>Sync\<close> ends
  with an error that carries a signature of an authentication failure, the
  loop empties the token in memory, writes the empty token to the file and
  ends without another \<^verbatim>\<open>Sync\<close>.  After any other end of \<^verbatim>\<open>Sync\<close> it writes
  the next batch token to the file if the store has one, sleeps 5 seconds
  if \<^verbatim>\<open>Sync\<close> returned an error and not at all if it returned none, and goes
  on with the next round, which begins with \<^verbatim>\<open>Sync\<close> unless it is cancelled.
\<close>

theorem sync_termination_handling:
  assumes "\<not> cancelled r"
  shows "(isAuthError (syncResult r) \<longrightarrow>
            syncLoop c (r # rs) =
              (c\<lparr>syncToken := []\<rparr>, [StartSync, WriteTokenFile []], AuthFailed)) \<and>
         (\<not> isAuthError (syncResult r) \<and> nextBatch r \<noteq> [] \<longrightarrow>
            fst (snd (syncLoop c (r # rs))) =
              StartSync # WriteTokenFile (nextBatch r) #
                (if syncResult r = None then [] else [Sleep 5]) @
                fst (snd (syncLoop (c\<lparr>syncToken := nextBatch r\<rparr>) rs))) \<and>
         (\<not> isAuthError (syncResult r) \<and> nextBatch r = [] \<longrightarrow>
            fst (snd (syncLoop c (r # rs))) =
              StartSync # (if syncResult r = None then [] else [Sleep 5]) @
                fst (snd (syncLoop c rs))) \<and>
         (\<forall>c' r' rs'. \<not> cancelled r' \<longrightarrow> hd (fst (snd (syncLoop c' (r' # rs')))) = StartSync)"
  using assms by (auto simp: Let_def split: prod.splits)

text \<open>
  A round that ends with a time-out and a round that ends with a rejected
  access token; the third round is never reached.
\<close>

theorem sync_termination_handling_witness:
  "\<not> cancelled \<lparr>cancelled = False, syncResult = Some ''context deadline exceeded'',
                 nextBatch = ''s1''\<rparr> \<and>
   \<not> isAuthError (Some ''context deadline exceeded'') \<and>
   isAuthError (Some ''M_UNKNOWN_TOKEN (HTTP 401): Invalid access token passed.'') \<and>
   syncLoop henry
     [\<lparr>cancelled = False, syncResult = Some ''context deadline exceeded'', nextBatch = ''s1''\<rparr>,
      \<lparr>cancelled = False,
       syncResult = Some ''M_UNKNOWN_TOKEN (HTTP 401): Invalid access token passed.'',
       nextBatch = ''s2''\<rparr>,
      \<lparr>cancelled = False, syncResult = None, nextBatch = ''s3''\<rparr>] =
     (henry\<lparr>syncToken := []\<rparr>,
      [StartSync, WriteTokenFile ''s1'', Sleep 5, StartSync, WriteTokenFile []],
      AuthFailed)"
proof -
  have h: "\<not> cancelled \<lparr>cancelled = False, syncResult = Some ''context deadline exceeded'',
                          nextBatch = ''s1''\<rparr>"
    by simp
  have h': "\<not> cancelled \<lparr>cancelled = False,
       syncResult = Some ''M_UNKNOWN_TOKEN (HTTP 401): Invalid access token passed.'',
       nextBatch = ''s2''\<rparr>"
    by simp
  from sync_termination_handling [OF h, of henry
      "[\<lparr>cancelled = False,
         syncResult = Some ''M_UNKNOWN_TOKEN (HTTP 401): Invalid access token passed.'',
         nextBatch = ''s2''\<rparr>,
        \<lparr>cancelled = False, syncResult = None, nextBatch = ''s3''\<rparr>]"]
    sync_termination_handling [OF h', of "henry\<lparr>syncToken := ''s1''\<rparr>"
      "[\<lparr>cancelled = False, syncResult = None, nextBatch = ''s3''\<rparr>]"]
  show ?thesis
    by (simp add: isAuthError_def henry_def)
qed

text \<open>
  C9 as stated fails when \<^verbatim>\<open>Sync\<close> ends without an error: the token is
  written and the loop goes on, and nothing is waited for.
\<close>

theorem sync_termination_handling_counterexample:
  "\<not> isAuthError None \<and>
   syncLoop henry [\<lparr>cancelled = False, syncResult = None, nextBatch = ''s1''\<rparr>] =
     (henry\<lparr>syncToken := ''s1''\<rparr>, [StartSync, WriteTokenFile ''s1''], Looping) \<and>
   Sleep 5 \<notin> set [StartSync, WriteTokenFile ''s1'']"
  by (simp add: isAuthError_def)

section \<open>Senders outside the allowed domain\<close>

text \<open>
  C10.  A user ID that does not hold exactly one colon is not from the
  allowed domain, whatever that domain is, and \<^verbatim>\<open>HandleMessage\<close> for such a
  sender returns no error and does nothing: no typing notice, no request to
  the model, no message.
\<close>

theorem not_one_colon_rejected:
  assumes "count_list uid CHR '':'' \<noteq> 1"
  shows "IsFromAllowedDomain c uid = False \<and>
         HandleMessage c out uid roomID content = (None, [])"
  using assms by (simp add: IsFromAllowedDomain_def HandleMessage_def length_Split)

text \<open>The sender \<^verbatim>\<open>u1\<close>, and a sender with two colons in the allowed domain.\<close>

theorem not_one_colon_rejected_witness:
  "count_list ''u1'' CHR '':'' \<noteq> 1 \<and>
   IsFromAllowedDomain henry ''u1'' = False \<and>
   HandleMessage henry quietOutcomes ''u1'' ''!room:henhouse.im'' ''hello'' = (None, []) \<and>
   count_list ''@eve:henhouse.im:henhouse.im'' CHR '':'' \<noteq> 1 \<and>
   HandleMessage henry quietOutcomes ''@eve:henhouse.im:henhouse.im'' ''!room:henhouse.im''
     ''hello'' = (None, [])"
proof -
  have h: "count_list ''u1'' CHR '':'' \<noteq> 1" by simp
  have h': "count_list ''@eve:henhouse.im:henhouse.im'' CHR '':'' \<noteq> 1" by simp
  from not_one_colon_rejected [OF h, of henry quietOutcomes "''!room:henhouse.im''" "''hello''"]
    not_one_colon_rejected [OF h', of henry quietOutcomes "''!room:henhouse.im''" "''hello''"]
  show ?thesis using h h' by simp
qed

end
